theory Spec2Isabelle
  imports Complex_Main
begin

section \<open>Data model (encoders/base.py)\<close>

text \<open>
  A Python \<open>str\<close> is a sequence of Unicode code points, and \<open>ord\<close> reads one of them as a
  non-negative integer. A text is therefore a list of code points, each a natural number
  (the characters of HOL are bytes and cannot hold a code point above 255).
\<close>

type_synonym codepoint = nat
type_synonym str = "codepoint list"

text \<open>The exceptions the modelled code can raise.\<close>

datatype error = KeyError | ValueError | Exception string

record ToneEvent =
  frequencies :: "real list"
  duration_ms :: int

record EncodedFrame =
  tones :: "ToneEvent list"
  original_text :: str

text \<open>
  Each of the three encoder classes has the single attribute \<open>tone_duration_ms\<close>; one record
  type holds the state of an instance of any of them.
\<close>

record Encoder =
  tone_duration_ms :: int

section \<open>Dual-tone encoder (encoders/dtmf.py)\<close>

definition LOW_FREQUENCIES :: "char \<rightharpoonup> int" where
  "LOW_FREQUENCIES = map_of
     [(CHR ''1'', 697), (CHR ''2'', 697), (CHR ''3'', 697), (CHR ''A'', 697),
      (CHR ''4'', 770), (CHR ''5'', 770), (CHR ''6'', 770), (CHR ''B'', 770),
      (CHR ''7'', 852), (CHR ''8'', 852), (CHR ''9'', 852), (CHR ''C'', 852),
      (CHR ''*'', 941), (CHR ''0'', 941), (CHR ''#'', 941), (CHR ''D'', 941)]"

definition HIGH_FREQUENCIES :: "char \<rightharpoonup> int" where
  "HIGH_FREQUENCIES = map_of
     [(CHR ''1'', 1209), (CHR ''4'', 1209), (CHR ''7'', 1209), (CHR ''*'', 1209),
      (CHR ''2'', 1336), (CHR ''5'', 1336), (CHR ''8'', 1336), (CHR ''0'', 1336),
      (CHR ''3'', 1477), (CHR ''6'', 1477), (CHR ''9'', 1477), (CHR ''#'', 1477),
      (CHR ''A'', 1633), (CHR ''B'', 1633), (CHR ''C'', 1633), (CHR ''D'', 1633)]"

definition HEX_TO_DTMF :: "char \<rightharpoonup> char" where
  "HEX_TO_DTMF = map_of
     [(CHR ''0'', CHR ''0''), (CHR ''1'', CHR ''1''), (CHR ''2'', CHR ''2''),
      (CHR ''3'', CHR ''3''), (CHR ''4'', CHR ''4''), (CHR ''5'', CHR ''5''),
      (CHR ''6'', CHR ''6''), (CHR ''7'', CHR ''7''), (CHR ''8'', CHR ''8''),
      (CHR ''9'', CHR ''9''),
      (CHR ''a'', CHR ''A''), (CHR ''b'', CHR ''B''), (CHR ''c'', CHR ''C''),
      (CHR ''d'', CHR ''D''), (CHR ''e'', CHR ''*''), (CHR ''f'', CHR ''#''),
      (CHR ''A'', CHR ''A''), (CHR ''B'', CHR ''B''), (CHR ''C'', CHR ''C''),
      (CHR ''D'', CHR ''D''), (CHR ''E'', CHR ''*''), (CHR ''F'', CHR ''#'')]"

text \<open>
  \<open>f"{n:02x}"\<close>: the lower-case hexadecimal digits of \<open>n\<close>, most significant first, padded
  with \<open>0\<close> on the left to a width of at least 2. The width is a minimum: a number of three
  or more digits is printed in full.
\<close>

definition hex_digit :: "nat \<Rightarrow> char" where
  "hex_digit d = ''0123456789abcdef'' ! d"

function format_x :: "nat \<Rightarrow> string" where
  "format_x n = (if n < 16 then [hex_digit n]
                 else format_x (n div 16) @ [hex_digit (n mod 16)])"
  by pat_completeness auto
termination
  by (relation "measure (\<lambda>n. n)") auto

declare format_x.simps [simp del]

definition format_02x :: "nat \<Rightarrow> string" where
  "format_02x n = (let s = format_x n in replicate (2 - length s) (CHR ''0'') @ s)"

text \<open>A dictionary subscript \<open>d[k]\<close> raises \<open>KeyError\<close> on a missing key.\<close>

definition subscript :: "('k \<rightharpoonup> 'v) \<Rightarrow> 'k \<Rightarrow> error + 'v" where
  "subscript d k = (case d k of None \<Rightarrow> Inl KeyError | Some v \<Rightarrow> Inr v)"

text \<open>The list comprehension \<open>[HEX_TO_DTMF[digit] for digit in hex_str]\<close>.\<close>

fun map_subscript :: "('k \<rightharpoonup> 'v) \<Rightarrow> 'k list \<Rightarrow> error + 'v list" where
  "map_subscript d [] = Inr []"
| "map_subscript d (k # ks) =
     (case subscript d k of
        Inl e \<Rightarrow> Inl e
      | Inr v \<Rightarrow> (case map_subscript d ks of Inl e \<Rightarrow> Inl e | Inr vs \<Rightarrow> Inr (v # vs)))"

definition DTMFEncoder_init :: "int option \<Rightarrow> error + Encoder" where
  "DTMFEncoder_init tone_duration =
     Inr \<lparr>tone_duration_ms = (case tone_duration of None \<Rightarrow> 100 | Some d \<Rightarrow> d)\<rparr>"

definition char_to_dtmf_symbols :: "codepoint \<Rightarrow> error + char list" where
  "char_to_dtmf_symbols c =
     (let ascii_code = c; hex_str = format_02x ascii_code
      in map_subscript HEX_TO_DTMF hex_str)"

definition symbol_to_frequencies :: "char \<Rightarrow> error + real list" where
  "symbol_to_frequencies symbol =
     (case subscript LOW_FREQUENCIES symbol of
        Inl e \<Rightarrow> Inl e
      | Inr lo \<Rightarrow>
         (case subscript HIGH_FREQUENCIES symbol of
            Inl e \<Rightarrow> Inl e
          | Inr hi \<Rightarrow> Inr [real_of_int lo, real_of_int hi]))"

text \<open>The inner loop of \<open>encode\<close>: one tone event appended per symbol.\<close>

fun dtmf_symbols_loop :: "Encoder \<Rightarrow> ToneEvent list \<Rightarrow> char list \<Rightarrow> error + ToneEvent list" where
  "dtmf_symbols_loop self acc [] = Inr acc"
| "dtmf_symbols_loop self acc (symbol # symbols) =
     (case symbol_to_frequencies symbol of
        Inl e \<Rightarrow> Inl e
      | Inr fs \<Rightarrow>
          dtmf_symbols_loop self
            (acc @ [\<lparr>frequencies = fs, duration_ms = tone_duration_ms self\<rparr>]) symbols)"

text \<open>The outer loop of \<open>encode\<close>, over the characters of the text.\<close>

fun dtmf_chars_loop :: "Encoder \<Rightarrow> ToneEvent list \<Rightarrow> str \<Rightarrow> error + ToneEvent list" where
  "dtmf_chars_loop self acc [] = Inr acc"
| "dtmf_chars_loop self acc (c # cs) =
     (case char_to_dtmf_symbols c of
        Inl e \<Rightarrow> Inl e
      | Inr symbols \<Rightarrow>
         (case dtmf_symbols_loop self acc symbols of
            Inl e \<Rightarrow> Inl e
          | Inr acc' \<Rightarrow> dtmf_chars_loop self acc' cs))"

text \<open>
  A method call is a function from the instance to the instance after the call and the
  result. \<open>encode\<close> assigns to no attribute of \<open>self\<close>.
\<close>

definition DTMFEncoder_encode :: "Encoder \<Rightarrow> str \<Rightarrow> Encoder \<times> (error + EncodedFrame)" where
  "DTMFEncoder_encode self s =
     (self,
      case dtmf_chars_loop self [] s of
        Inl e \<Rightarrow> Inl e
      | Inr ts \<Rightarrow> Inr \<lparr>tones = ts, original_text = s\<rparr>)"

subsection \<open>The keypad and the hexadecimal digits, for comparison\<close>

text \<open>
  The telephone keypad as the comment at the head of dtmf.py draws it: four rows, each with
  its low frequency, and four columns, each with its high frequency. \<open>HEX_SYMBOLS\<close> gives
  the keypad symbol of each hexadecimal digit value, 0 to 15. \<open>keypad_frequencies\<close> reads
  the pair of a digit value off the grid; the dictionaries above are compared with it.
\<close>

definition KEYPAD :: "string list" where
  "KEYPAD = [''123A'', ''456B'', ''789C'', ''*0#D'']"

definition ROW_HZ :: "real list" where
  "ROW_HZ = [697, 770, 852, 941]"

definition COLUMN_HZ :: "real list" where
  "COLUMN_HZ = [1209, 1336, 1477, 1633]"

definition HEX_SYMBOLS :: string where
  "HEX_SYMBOLS = ''0123456789ABCD*#''"

definition keypad_frequencies :: "nat \<Rightarrow> real list" where
  "keypad_frequencies d =
     (let s = HEX_SYMBOLS ! d
      in [f. (row, f) \<leftarrow> zip KEYPAD ROW_HZ, s \<in> set row] @
         [g. row \<leftarrow> KEYPAD, (k, g) \<leftarrow> zip row COLUMN_HZ, k = s])"

definition keypad_tone :: "Encoder \<Rightarrow> nat \<Rightarrow> ToneEvent" where
  "keypad_tone self d =
     \<lparr>frequencies = keypad_frequencies d, duration_ms = tone_duration_ms self\<rparr>"

text \<open>
  The hexadecimal digits of a number as digit values, most significant first, and the
  number they denote; \<open>pad2\<close> pads with leading zeros to two digits.
\<close>

function hex_digits_of :: "nat \<Rightarrow> nat list" where
  "hex_digits_of n = (if n < 16 then [n] else hex_digits_of (n div 16) @ [n mod 16])"
  by pat_completeness auto
termination
  by (relation "measure (\<lambda>n. n)") auto

declare hex_digits_of.simps [simp del]

definition hex_value :: "nat list \<Rightarrow> nat" where
  "hex_value ds = foldl (\<lambda>v d. 16 * v + d) 0 ds"

definition pad2 :: "nat list \<Rightarrow> nat list" where
  "pad2 ds = replicate (2 - length ds) 0 @ ds"

definition char_tones :: "Encoder \<Rightarrow> codepoint \<Rightarrow> ToneEvent list" where
  "char_tones self c = map (keypad_tone self) (pad2 (hex_digits_of c))"

section \<open>Single-tone encoders (encoders/fsk.py, encoders/ultrasonic.py)\<close>

definition FSK_MIN_FREQUENCY :: real where
  "FSK_MIN_FREQUENCY = 400"

definition FSK_MAX_FREQUENCY :: real where
  "FSK_MAX_FREQUENCY = 2000"

definition FSK_FREQUENCY_RANGE :: real where
  "FSK_FREQUENCY_RANGE = FSK_MAX_FREQUENCY - FSK_MIN_FREQUENCY"

definition FSKEncoder_init :: "int option \<Rightarrow> error + Encoder" where
  "FSKEncoder_init tone_duration =
     Inr \<lparr>tone_duration_ms = (case tone_duration of None \<Rightarrow> 100 | Some d \<Rightarrow> d)\<rparr>"

definition fsk_char_to_frequency :: "codepoint \<Rightarrow> real" where
  "fsk_char_to_frequency c =
     (let ascii_code = int c;
          ascii_code = max 0 (min 255 ascii_code)
      in FSK_MIN_FREQUENCY + (real_of_int ascii_code / 255) * FSK_FREQUENCY_RANGE)"

fun fsk_loop :: "Encoder \<Rightarrow> ToneEvent list \<Rightarrow> str \<Rightarrow> ToneEvent list" where
  "fsk_loop self acc [] = acc"
| "fsk_loop self acc (c # cs) =
     fsk_loop self
       (acc @ [\<lparr>frequencies = [fsk_char_to_frequency c], duration_ms = tone_duration_ms self\<rparr>])
       cs"

definition FSKEncoder_encode :: "Encoder \<Rightarrow> str \<Rightarrow> Encoder \<times> EncodedFrame" where
  "FSKEncoder_encode self s = (self, \<lparr>tones = fsk_loop self [] s, original_text = s\<rparr>)"

definition US_MIN_FREQUENCY :: real where
  "US_MIN_FREQUENCY = 15000"

definition US_MAX_FREQUENCY :: real where
  "US_MAX_FREQUENCY = 20000"

definition US_FREQUENCY_RANGE :: real where
  "US_FREQUENCY_RANGE = US_MAX_FREQUENCY - US_MIN_FREQUENCY"

definition DEFAULT_TONE_DURATION_MS :: int where
  "DEFAULT_TONE_DURATION_MS = 5"

definition UltrasonicEncoder_init :: "int option \<Rightarrow> error + Encoder" where
  "UltrasonicEncoder_init tone_duration =
     Inr \<lparr>tone_duration_ms =
            (case tone_duration of None \<Rightarrow> DEFAULT_TONE_DURATION_MS | Some d \<Rightarrow> d)\<rparr>"

definition us_char_to_frequency :: "codepoint \<Rightarrow> real" where
  "us_char_to_frequency c =
     (let ascii_code = int c;
          ascii_code = max 0 (min 255 ascii_code)
      in US_MIN_FREQUENCY + (real_of_int ascii_code / 255) * US_FREQUENCY_RANGE)"

fun us_loop :: "Encoder \<Rightarrow> ToneEvent list \<Rightarrow> str \<Rightarrow> ToneEvent list" where
  "us_loop self acc [] = acc"
| "us_loop self acc (c # cs) =
     us_loop self
       (acc @ [\<lparr>frequencies = [us_char_to_frequency c], duration_ms = tone_duration_ms self\<rparr>])
       cs"

definition UltrasonicEncoder_encode :: "Encoder \<Rightarrow> str \<Rightarrow> Encoder \<times> EncodedFrame" where
  "UltrasonicEncoder_encode self s =
     (self, \<lparr>tones = us_loop self [] s, original_text = s\<rparr>)"

section \<open>Token buffer (buffer.py)\<close>

text \<open>
  The flush handler is a caller-supplied coroutine that is awaited to completion. It acts on
  a world \<open>'w\<close> outside the buffer and either returns (\<open>None\<close>) or raises (\<open>Some e\<close>).
\<close>

type_synonym 'w handler = "str \<Rightarrow> 'w \<Rightarrow> error option \<times> 'w"

record 'w TokenBuffer =
  buffer_size :: int
  on_flush :: "'w handler"
  buffer :: str
  token_count :: int

definition TokenBuffer_init :: "int \<Rightarrow> 'w handler \<Rightarrow> error + 'w TokenBuffer" where
  "TokenBuffer_init n h =
     Inr \<lparr>buffer_size = n, on_flush = h, buffer = [], token_count = 0\<rparr>"

text \<open>
  A method call takes the instance and the world and returns what was raised, if anything,
  with the instance and the world as the call leaves them.
\<close>

definition TokenBuffer_flush ::
  "'w TokenBuffer \<Rightarrow> 'w \<Rightarrow> error option \<times> 'w TokenBuffer \<times> 'w" where
  "TokenBuffer_flush self w =
     (if buffer self \<noteq> [] then
        (case on_flush self (buffer self) w of
           (Some e, w') \<Rightarrow> (Some e, self, w')
         | (None, w') \<Rightarrow> (None, self\<lparr>buffer := [], token_count := 0\<rparr>, w'))
      else (None, self, w))"

definition TokenBuffer_add ::
  "'w TokenBuffer \<Rightarrow> str \<Rightarrow> 'w \<Rightarrow> error option \<times> 'w TokenBuffer \<times> 'w" where
  "TokenBuffer_add self s w =
     (let self = self\<lparr>buffer := buffer self @ s\<rparr>;
          self = self\<lparr>token_count := token_count self + 1\<rparr>
      in if token_count self \<ge> buffer_size self then TokenBuffer_flush self w
         else (None, self, w))"

text \<open>
  A caller's sequence of calls on one buffer. An exception of a call reaches the caller, who
  may go on calling; \<open>run_calls\<close> gives the instance and the world after the whole sequence
  and \<open>raised\<close> tells whether a call of the sequence raised.
\<close>

datatype call = Add str | Flush

fun TokenBuffer_call ::
  "call \<Rightarrow> 'w TokenBuffer \<Rightarrow> 'w \<Rightarrow> error option \<times> 'w TokenBuffer \<times> 'w" where
  "TokenBuffer_call (Add s) self w = TokenBuffer_add self s w"
| "TokenBuffer_call Flush self w = TokenBuffer_flush self w"

fun run_calls :: "call list \<Rightarrow> 'w TokenBuffer \<Rightarrow> 'w \<Rightarrow> 'w TokenBuffer \<times> 'w" where
  "run_calls [] self w = (self, w)"
| "run_calls (c # cs) self w =
     (case TokenBuffer_call c self w of (r, self', w') \<Rightarrow> run_calls cs self' w')"

fun raised :: "call list \<Rightarrow> 'w TokenBuffer \<Rightarrow> 'w \<Rightarrow> bool" where
  "raised [] self w = False"
| "raised (c # cs) self w =
     (case TokenBuffer_call c self w of (r, self', w') \<Rightarrow> r \<noteq> None \<or> raised cs self' w')"

text \<open>
  Two handlers to run the buffer with: one returns, one raises; neither has a world of its
  own.
\<close>

definition returning_handler :: "unit handler" where
  "returning_handler s w = (None, w)"



text \<open>
  The state of a buffer between calls when no fragment is empty and the handler never
  raises: the counter is below the threshold, and zero exactly when no text is held.
\<close>

definition buffer_inv :: "'w TokenBuffer \<Rightarrow> bool" where
  "buffer_inv self =
     (0 \<le> token_count self \<and> token_count self < buffer_size self \<and>
      (buffer self = [] \<longleftrightarrow> token_count self = 0))"

section \<open>Tone synthesizer (audio/tone.py)\<close>

text \<open>
  Samples are modelled as real numbers: the sine, the sums and the products are exact, and
  the rounding of the 32-bit floating-point arrays of the source is not represented.

  \<open>int(a / b)\<close> on integers \<open>a\<close> and \<open>b > 0\<close> is the quotient truncated towards zero
  (the float quotient of the source truncates to the same integer for every \<open>a\<close> whose
  quotient can be the length of an array). \<open>int(sample_rate * 0.01)\<close> is \<open>sample_rate\<close>
  divided by 100 and truncated in the same way.
\<close>

definition int_truediv :: "int \<Rightarrow> int \<Rightarrow> int" where
  "int_truediv a b = (if 0 \<le> a then a div b else - ((- a) div b))"

text \<open>
  \<open>np.linspace(start, stop, num)\<close>: \<open>num\<close> evenly spaced values from \<open>start\<close> to \<open>stop\<close>,
  both ends included; a single value is \<open>start\<close>; a negative \<open>num\<close> raises \<open>ValueError\<close>.
\<close>

definition linspace :: "real \<Rightarrow> real \<Rightarrow> int \<Rightarrow> error + real list" where
  "linspace start stop num =
     (if num < 0 then Inl ValueError
      else if num = 1 then Inr [start]
      else Inr (map (\<lambda>i. start + real i * ((stop - start) / real (nat num - 1))) [0..<nat num]))"

text \<open>The loop \<open>for freq in frequencies: signal += np.sin(2 * np.pi * freq * t)\<close>.\<close>

fun tone_loop :: "real list \<Rightarrow> real list \<Rightarrow> real list \<Rightarrow> real list" where
  "tone_loop signal t [] = signal"
| "tone_loop signal t (freq # freqs) =
     tone_loop (map2 (+) signal (map (\<lambda>x. sin (2 * pi * freq * x)) t)) t freqs"

text \<open>The signal before the envelope: the sum of the sines, normalised.\<close>

definition tone_signal :: "real list \<Rightarrow> real list \<Rightarrow> real list" where
  "tone_signal fs t =
     (let signal = tone_loop (map (\<lambda>_. 0) t) t fs
      in if length fs > 0 then map (\<lambda>s. s / real (length fs)) signal
         else signal)"

text \<open>
  \<open>signal[:n] *= fade_in\<close> and \<open>signal[-n:] *= fade_out\<close>, for \<open>0 < n \<le> len(signal)\<close> and
  fades of length \<open>n\<close>.
\<close>

definition mul_prefix :: "nat \<Rightarrow> real list \<Rightarrow> real list \<Rightarrow> real list" where
  "mul_prefix n fade signal = map2 (*) (take n signal) fade @ drop n signal"

definition mul_suffix :: "nat \<Rightarrow> real list \<Rightarrow> real list \<Rightarrow> real list" where
  "mul_suffix n fade signal =
     take (length signal - n) signal @ map2 (*) (drop (length signal - n) signal) fade"

text \<open>The envelope: 10 ms of fade at each end, for a signal longer than both fades.\<close>

definition apply_envelope :: "int \<Rightarrow> real list \<Rightarrow> error + real list" where
  "apply_envelope sample_rate signal =
     (let fade_samples = int_truediv sample_rate 100
      in if fade_samples > 0 \<and> int (length signal) > 2 * fade_samples then
           (case linspace 0 1 fade_samples of
              Inl e \<Rightarrow> Inl e
            | Inr fade_in \<Rightarrow>
               (case linspace 1 0 fade_samples of
                  Inl e \<Rightarrow> Inl e
                | Inr fade_out \<Rightarrow>
                    Inr (mul_suffix (nat fade_samples) fade_out
                           (mul_prefix (nat fade_samples) fade_in signal))))
         else Inr signal)"

definition generate_tone :: "real list \<Rightarrow> int \<Rightarrow> int \<Rightarrow> error + real list" where
  "generate_tone fs duration sample_rate =
     (let num_samples = int_truediv (sample_rate * duration) 1000
      in case linspace 0 (real_of_int duration / 1000) num_samples of
           Inl e \<Rightarrow> Inl e
         | Inr t \<Rightarrow> apply_envelope sample_rate (tone_signal fs t))"

subsection \<open>The envelope as a gain per sample, for comparison\<close>

text \<open>
  The gain of a linear fade-in over the first \<open>k\<close> and a linear fade-out over the last
  \<open>k\<close> of \<open>n\<close> samples, at index \<open>i\<close>; a fade of one sample is the single value its ramp
  starts with. \<open>envelope\<close> is that gain when the condition of the source holds, 1 otherwise.
\<close>

definition envelope_gain :: "nat \<Rightarrow> nat \<Rightarrow> nat \<Rightarrow> real" where
  "envelope_gain k n i =
     (if i < k then (if k = 1 then 0 else real i / real (k - 1))
      else if n - k \<le> i then (if k = 1 then 1 else 1 - real (i - (n - k)) / real (k - 1))
      else 1)"

definition envelope :: "int \<Rightarrow> nat \<Rightarrow> nat \<Rightarrow> real" where
  "envelope sample_rate n i =
     (let k = int_truediv sample_rate 100
      in if 0 < k \<and> 2 * k < int n then envelope_gain (nat k) n i else 1)"

section \<open>The dual-tone encoder computes the keypad tones of the hexadecimal digits\<close>

lemma nat_less_16_cases:
  "d < 16 \<Longrightarrow> d = 0 \<or> d = 1 \<or> d = 2 \<or> d = 3 \<or> d = 4 \<or> d = 5 \<or> d = 6 \<or> d = 7 \<or>
     d = 8 \<or> d = 9 \<or> d = 10 \<or> d = 11 \<or> d = 12 \<or> d = 13 \<or> d = 14 \<or> (d::nat) = 15"
  by arith

lemma keypad_frequencies_table:
  "map keypad_frequencies [0, 1, 2, 3, 4, 5, 6, 7, 8, 9, 10, 11, 12, 13, 14, 15] =
     [[941, 1336], [697, 1209], [697, 1336], [697, 1477], [770, 1209], [770, 1336],
      [770, 1477], [852, 1209], [852, 1336], [852, 1477], [697, 1633], [770, 1633],
      [852, 1633], [941, 1633], [941, 1209], [941, 1477]]"
  by (simp add: keypad_frequencies_def KEYPAD_def ROW_HZ_def COLUMN_HZ_def HEX_SYMBOLS_def)

lemma hex_digit_symbol:
  "d < 16 \<Longrightarrow> subscript HEX_TO_DTMF (hex_digit d) = Inr (HEX_SYMBOLS ! d)"
  by (drule nat_less_16_cases)
     (elim disjE; simp add: subscript_def HEX_TO_DTMF_def hex_digit_def HEX_SYMBOLS_def)

lemma symbol_frequencies:
  "d < 16 \<Longrightarrow> symbol_to_frequencies (HEX_SYMBOLS ! d) = Inr (keypad_frequencies d)"
  using keypad_frequencies_table
  by (drule_tac nat_less_16_cases)
     (elim disjE; simp add: symbol_to_frequencies_def subscript_def LOW_FREQUENCIES_def
        HIGH_FREQUENCIES_def HEX_SYMBOLS_def)

lemma hex_digits_of_lt16: "\<forall>d \<in> set (hex_digits_of n). d < 16"
proof (induction n rule: hex_digits_of.induct)
  case (1 n)
  then show ?case
    by (subst hex_digits_of.simps) auto
qed

lemma format_x_digits: "format_x n = map hex_digit (hex_digits_of n)"
proof (induction n rule: hex_digits_of.induct)
  case (1 n)
  then show ?case
    by (subst format_x.simps, subst hex_digits_of.simps) simp
qed

lemma format_02x_digits: "format_02x n = map hex_digit (pad2 (hex_digits_of n))"
  by (simp add: format_02x_def pad2_def format_x_digits hex_digit_def)

lemma pad2_lt16: "\<forall>d \<in> set ds. d < 16 \<Longrightarrow> \<forall>d \<in> set (pad2 ds). d < 16"
  by (auto simp: pad2_def)

lemma map_subscript_digits:
  "\<forall>d \<in> set ds. d < 16 \<Longrightarrow>
     map_subscript HEX_TO_DTMF (map hex_digit ds) = Inr (map ((!) HEX_SYMBOLS) ds)"
  by (induction ds) (simp_all add: hex_digit_symbol)

lemma pad2_hex_digits_lt16: "\<forall>d \<in> set (pad2 (hex_digits_of n)). d < 16"
  by (rule pad2_lt16) (rule hex_digits_of_lt16)

lemma char_to_dtmf_symbols_eq:
  "char_to_dtmf_symbols c = Inr (map ((!) HEX_SYMBOLS) (pad2 (hex_digits_of c)))"
  by (simp add: char_to_dtmf_symbols_def format_02x_digits
        map_subscript_digits [OF pad2_hex_digits_lt16])

lemma dtmf_symbols_loop_eq:
  "\<forall>d \<in> set ds. d < 16 \<Longrightarrow>
     dtmf_symbols_loop self acc (map ((!) HEX_SYMBOLS) ds) = Inr (acc @ map (keypad_tone self) ds)"
  by (induction ds arbitrary: acc) (simp_all add: symbol_frequencies keypad_tone_def)

lemma dtmf_chars_loop_eq:
  "dtmf_chars_loop self acc s = Inr (acc @ concat (map (char_tones self) s))"
  by (induction s arbitrary: acc)
     (simp_all add: char_to_dtmf_symbols_eq dtmf_symbols_loop_eq [OF pad2_hex_digits_lt16]
        char_tones_def)

lemma DTMFEncoder_encode_eq:
  "DTMFEncoder_encode self txt =
     (self, Inr \<lparr>tones = concat (map (char_tones self) txt), original_text = txt\<rparr>)"
  by (simp add: DTMFEncoder_encode_def dtmf_chars_loop_eq)

lemma hex_digits_of_small: "n < 16 \<Longrightarrow> hex_digits_of n = [n]"
  by (subst hex_digits_of.simps) simp

lemma hex_digits_of_byte: "n < 256 \<Longrightarrow> pad2 (hex_digits_of n) = [n div 16, n mod 16]"
  by (subst hex_digits_of.simps) (simp add: hex_digits_of_small pad2_def)

lemma length_hex_digits_of_pos: "1 \<le> length (hex_digits_of n)"
  by (subst hex_digits_of.simps) simp

lemma hex_digits_of_step:
  "16 \<le> n \<Longrightarrow> hex_digits_of n = hex_digits_of (n div 16) @ [n mod 16]"
  by (subst hex_digits_of.simps) simp

lemma hex_digits_of_length: "256 \<le> n \<Longrightarrow> 3 \<le> length (hex_digits_of n)"
proof -
  assume n: "256 \<le> n"
  then have "16 \<le> n" and "16 \<le> n div 16" by simp_all
  then have "hex_digits_of n = hex_digits_of (n div 16 div 16) @ [n div 16 mod 16, n mod 16]"
    by (simp add: hex_digits_of_step)
  then show ?thesis
    using length_hex_digits_of_pos [of "n div 16 div 16"] by simp
qed

lemma pad2_long: "2 \<le> length ds \<Longrightarrow> pad2 ds = ds"
  by (simp add: pad2_def)

lemma hex_value_snoc: "hex_value (ds @ [d]) = 16 * hex_value ds + d"
  by (simp add: hex_value_def)

lemma foldl_hex_zeros: "foldl (\<lambda>v d. 16 * v + d) 0 (replicate k 0) = (0::nat)"
  by (induction k) simp_all

lemma hex_value_pad2: "hex_value (pad2 ds) = hex_value ds"
  by (simp add: hex_value_def pad2_def foldl_hex_zeros)

lemma hex_value_digits: "hex_value (hex_digits_of n) = n"
proof (induction n rule: hex_digits_of.induct)
  case (1 n)
  show ?case
  proof (cases "n < 16")
    case True
    then show ?thesis by (simp add: hex_digits_of_small hex_value_def)
  next
    case False
    with 1 show ?thesis by (simp add: hex_digits_of_step hex_value_snoc)
  qed
qed

lemma keypad_frequencies_nth:
  "keypad_frequencies 0 = [941, 1336]" "keypad_frequencies 1 = [697, 1209]"
  "keypad_frequencies 2 = [697, 1336]" "keypad_frequencies 3 = [697, 1477]"
  "keypad_frequencies 4 = [770, 1209]" "keypad_frequencies 5 = [770, 1336]"
  "keypad_frequencies 6 = [770, 1477]" "keypad_frequencies 7 = [852, 1209]"
  "keypad_frequencies 8 = [852, 1336]" "keypad_frequencies 9 = [852, 1477]"
  "keypad_frequencies 10 = [697, 1633]" "keypad_frequencies 11 = [770, 1633]"
  "keypad_frequencies 12 = [852, 1633]" "keypad_frequencies 13 = [941, 1633]"
  "keypad_frequencies 14 = [941, 1209]" "keypad_frequencies 15 = [941, 1477]"
  using keypad_frequencies_table by simp_all

lemma keypad_frequencies_Suc_0: "keypad_frequencies (Suc 0) = [697, 1209]"
  using keypad_frequencies_nth(2) by simp

lemma keypad_frequencies_in_sets:
  "d < 16 \<Longrightarrow> \<exists>lo hi. keypad_frequencies d = [lo, hi] \<and>
     lo \<in> {697, 770, 852, 941} \<and> hi \<in> {1209, 1336, 1477, 1633}"
  by (drule nat_less_16_cases)
     (elim disjE; simp add: keypad_frequencies_nth keypad_frequencies_Suc_0)

lemma char_tones_byte:
  "c \<le> 255 \<Longrightarrow> char_tones self c = [keypad_tone self (c div 16), keypad_tone self (c mod 16)]"
  by (simp add: char_tones_def hex_digits_of_byte)

lemma length_concat_char_tones:
  "\<forall>c \<in> set s. c \<le> 255 \<Longrightarrow> length (concat (map (char_tones self) s)) = 2 * length s"
  by (induction s) (simp_all add: char_tones_byte)

lemma concat_char_tones_keypad:
  "t \<in> set (concat (map (char_tones self) s)) \<Longrightarrow> \<exists>d<16. t = keypad_tone self d"
  using pad2_hex_digits_lt16 by (auto simp: char_tones_def)

lemma dtmf_encode_latin1:
  assumes "\<forall>c \<in> set s. c \<le> 255"
  shows "\<exists>fr. snd (DTMFEncoder_encode self s) = Inr fr \<and> original_text fr = s \<and>
       length (tones fr) = 2 * length s \<and>
       (\<forall>t \<in> set (tones fr). \<exists>lo hi. frequencies t = [lo, hi] \<and>
          lo \<in> {697, 770, 852, 941} \<and> hi \<in> {1209, 1336, 1477, 1633})"
proof -
  let ?fr = "\<lparr>tones = concat (map (char_tones self) s), original_text = s\<rparr>"
  have "snd (DTMFEncoder_encode self s) = Inr ?fr"
    by (simp add: DTMFEncoder_encode_eq)
  moreover have "length (tones ?fr) = 2 * length s"
    using assms by (simp add: length_concat_char_tones)
  moreover have "\<exists>lo hi. frequencies t = [lo, hi] \<and>
          lo \<in> {697, 770, 852, 941} \<and> hi \<in> {1209, 1336, 1477, 1633}"
    if "t \<in> set (tones ?fr)" for t
  proof -
    from that obtain d where "d < 16" and "t = keypad_tone self d"
      using concat_char_tones_keypad [of t self s] by auto
    then show ?thesis
      using keypad_frequencies_in_sets [of d] by (simp add: keypad_tone_def)
  qed
  ultimately show ?thesis by auto
qed

lemma length_pad2: "2 \<le> length (pad2 ds)"
  by (simp add: pad2_def)

lemma length_concat_char_tones_ge:
  "2 * length s \<le> length (concat (map (char_tones self) s))"
proof (induction s)
  case Nil
  then show ?case by simp
next
  case (Cons c s)
  have "2 \<le> length (char_tones self c)"
    by (simp add: char_tones_def length_pad2)
  with Cons show ?case by simp
qed

text \<open>
  A text of code points up to 255 is encoded character by character, in the order of the
  text, each character as the tone of its high hexadecimal digit and then the tone of its
  low one.
\<close>

lemma dtmf_encode_latin1_digits:
  assumes "\<forall>c \<in> set s. c \<le> 255"
  shows "snd (DTMFEncoder_encode self s) =
     Inr \<lparr>tones = concat (map (\<lambda>c. [keypad_tone self (c div 16), keypad_tone self (c mod 16)]) s),
          original_text = s\<rparr>"
proof -
  have eq: "map (char_tones self) s =
      map (\<lambda>c. [keypad_tone self (c div 16), keypad_tone self (c mod 16)]) s"
    using assms by (intro map_cong) (simp_all add: char_tones_byte)
  show ?thesis
    by (simp only: DTMFEncoder_encode_eq eq snd_conv)
qed

lemma dtmf_encode_H:
  "snd (DTMFEncoder_encode self [72]) =
     Inr \<lparr>tones = [\<lparr>frequencies = [770, 1209], duration_ms = tone_duration_ms self\<rparr>,
                  \<lparr>frequencies = [852, 1336], duration_ms = tone_duration_ms self\<rparr>],
          original_text = [72]\<rparr>"
  using dtmf_encode_latin1_digits [of "[72]" self]
  by (simp add: keypad_tone_def keypad_frequencies_nth)

subsection \<open>Claims about the dual-tone encoder\<close>

text \<open>
  C1. The claim: for every text \<open>T\<close>, \<open>encode(T)\<close> returns a frame of exactly
  \<open>2 * len(T)\<close> tone events, each with one low and one high keypad frequency, and
  \<open>original_text = T\<close>. The docstring of \<open>encode\<close> says the same ("Each character becomes
  2 DTMF tones"). It holds for texts of code points up to 255 (\<open>dtmf_encode_latin1\<close>). It
  fails on the code for a code point above 255: the width 2 of the format \<open>02x\<close> is a
  minimum, so code point 256 is formatted as \<open>100\<close> and the one-character text yields
  three tone events, not two.
\<close>

theorem dtmf_encode_256_three_tones:
  "snd (DTMFEncoder_encode \<lparr>tone_duration_ms = 100\<rparr> [256]) =
     Inr \<lparr>tones = [\<lparr>frequencies = [697, 1209], duration_ms = 100\<rparr>,
                  \<lparr>frequencies = [941, 1336], duration_ms = 100\<rparr>,
                  \<lparr>frequencies = [941, 1336], duration_ms = 100\<rparr>],
          original_text = [256]\<rparr> \<and>
   length [\<lparr>frequencies = [697, 1209], duration_ms = 100\<rparr>,
           \<lparr>frequencies = [941, 1336], duration_ms = (100::int)\<rparr>,
           \<lparr>frequencies = [941, 1336], duration_ms = 100\<rparr>] \<noteq> 2 * length [256::nat]"
proof -
  have "hex_digits_of 256 = [1, 0, 0]"
    by (simp add: hex_digits_of_step hex_digits_of_small)
  then show ?thesis
    by (simp add: DTMFEncoder_encode_eq char_tones_def pad2_def keypad_tone_def
          keypad_frequencies_nth keypad_frequencies_Suc_0)
qed

text \<open>
  C2, as stated: for a code point above 255 the encoder raises an encoding-range error and
  returns no frame. On the code no such error exists: for the euro sign (code point 8364,
  hexadecimal \<open>20ac\<close>) \<open>encode\<close> returns a frame of four tone events.
\<close>

theorem dtmf_encode_euro_returns_frame:
  "snd (DTMFEncoder_encode \<lparr>tone_duration_ms = 100\<rparr> [8364]) =
     Inr \<lparr>tones = [\<lparr>frequencies = [697, 1336], duration_ms = 100\<rparr>,
                  \<lparr>frequencies = [941, 1336], duration_ms = 100\<rparr>,
                  \<lparr>frequencies = [697, 1633], duration_ms = 100\<rparr>,
                  \<lparr>frequencies = [852, 1633], duration_ms = 100\<rparr>],
          original_text = [8364]\<rparr>"
proof -
  have "hex_digits_of 8364 = [2, 0, 10, 12]"
    by (simp add: hex_digits_of_step hex_digits_of_small)
  then show ?thesis
    by (simp add: DTMFEncoder_encode_eq char_tones_def pad2_def keypad_tone_def
          keypad_frequencies_nth keypad_frequencies_Suc_0)
qed

text \<open>
  C2, amended: \<open>encode\<close> raises on no text, whatever its code points; no encoding-range
  error exists. It returns a frame whose \<open>original_text\<close> is the text, with at least two
  tone events for each character, every event carrying one low and one high keypad
  frequency and the encoder's duration: no table lookup fails. What a code point above
  255 yields beyond that is not stated here.
\<close>

theorem dtmf_encode_never_raises:
  "\<exists>fr. snd (DTMFEncoder_encode self s) = Inr fr \<and> original_text fr = s \<and>
     2 * length s \<le> length (tones fr) \<and>
     (\<forall>t \<in> set (tones fr). \<exists>lo hi. frequencies t = [lo, hi] \<and>
        lo \<in> {697, 770, 852, 941} \<and> hi \<in> {1209, 1336, 1477, 1633} \<and>
        duration_ms t = tone_duration_ms self)"
proof -
  let ?fr = "\<lparr>tones = concat (map (char_tones self) s), original_text = s\<rparr>"
  have "snd (DTMFEncoder_encode self s) = Inr ?fr"
    by (simp add: DTMFEncoder_encode_eq)
  moreover have "2 * length s \<le> length (tones ?fr)"
    by (simp add: length_concat_char_tones_ge)
  moreover have "\<exists>lo hi. frequencies t = [lo, hi] \<and>
        lo \<in> {697, 770, 852, 941} \<and> hi \<in> {1209, 1336, 1477, 1633} \<and>
        duration_ms t = tone_duration_ms self"
    if "t \<in> set (tones ?fr)" for t
  proof -
    from that obtain d where "d < 16" and "t = keypad_tone self d"
      using concat_char_tones_keypad [of t self s] by auto
    then show ?thesis
      using keypad_frequencies_in_sets [of d] by (simp add: keypad_tone_def)
  qed
  ultimately show ?thesis by auto
qed

theorem dtmf_encode_never_raises_witness:
  "snd (DTMFEncoder_encode \<lparr>tone_duration_ms = 100\<rparr> [72, 300]) =
     Inr \<lparr>tones = [\<lparr>frequencies = [770, 1209], duration_ms = 100\<rparr>,
                  \<lparr>frequencies = [852, 1336], duration_ms = 100\<rparr>,
                  \<lparr>frequencies = [697, 1209], duration_ms = 100\<rparr>,
                  \<lparr>frequencies = [697, 1336], duration_ms = 100\<rparr>,
                  \<lparr>frequencies = [852, 1633], duration_ms = 100\<rparr>],
          original_text = [72, 300]\<rparr> \<and>
   2 * length [72, 300 :: nat] \<le> (5 :: nat)"
proof -
  have "hex_digits_of 300 = [1, 2, 12]"
    by (simp add: hex_digits_of_step hex_digits_of_small)
  then show ?thesis
    using dtmf_encode_never_raises [of "\<lparr>tone_duration_ms = 100\<rparr>" "[72, 300]"]
    by (simp add: DTMFEncoder_encode_eq char_tones_def hex_digits_of_byte pad2_long
          keypad_tone_def keypad_frequencies_nth keypad_frequencies_Suc_0)
qed

text \<open>
  C8. The claim: for every character the encoder emits the tone of the most significant
  digit of the character's two-digit hexadecimal code, then that of the least significant;
  \<open>encode("H")\<close> yields 770 and 1209 Hz, then 852 and 1336 Hz. The docstrings say the
  same ("its hex representation (2 digits)", "Each character becomes 2 DTMF tones"). It
  holds for every text of code points up to 255, in the order of the text
  (\<open>dtmf_encode_latin1_digits\<close>, \<open>dtmf_encode_H\<close>). It fails on the code for a code point
  above 255, which has no two-digit code: in the text of \<open>H\<close> and the Greek letter pi (code
  point 960, formatted as \<open>3c0\<close>) the first character yields its two tone events and the
  second three, those of \<open>3\<close>, \<open>C\<close> and \<open>0\<close>.
\<close>

theorem dtmf_encode_H_pi_five_tones:
  "snd (DTMFEncoder_encode \<lparr>tone_duration_ms = 100\<rparr> [72, 960]) =
     Inr \<lparr>tones = [\<lparr>frequencies = [770, 1209], duration_ms = 100\<rparr>,
                  \<lparr>frequencies = [852, 1336], duration_ms = 100\<rparr>,
                  \<lparr>frequencies = [697, 1477], duration_ms = 100\<rparr>,
                  \<lparr>frequencies = [852, 1633], duration_ms = 100\<rparr>,
                  \<lparr>frequencies = [941, 1336], duration_ms = 100\<rparr>],
          original_text = [72, 960]\<rparr>"
proof -
  have "hex_digits_of 960 = [3, 12, 0]"
    by (simp add: hex_digits_of_step hex_digits_of_small)
  then show ?thesis
    by (simp add: DTMFEncoder_encode_eq char_tones_def hex_digits_of_byte pad2_long
          keypad_tone_def keypad_frequencies_nth)
qed

section \<open>The single-tone encoders, the durations and the constructors\<close>

lemma fsk_loop_eq:
  "fsk_loop self acc s =
     acc @ map (\<lambda>c. \<lparr>frequencies = [fsk_char_to_frequency c],
                      duration_ms = tone_duration_ms self\<rparr>) s"
  by (induction s arbitrary: acc) simp_all

lemma us_loop_eq:
  "us_loop self acc s =
     acc @ map (\<lambda>c. \<lparr>frequencies = [us_char_to_frequency c],
                      duration_ms = tone_duration_ms self\<rparr>) s"
  by (induction s arbitrary: acc) simp_all

lemma fsk_char_to_frequency_eq:
  "fsk_char_to_frequency c = 400 + (real (min c 255) / 255) * 1600"
  by (simp add: fsk_char_to_frequency_def FSK_MIN_FREQUENCY_def FSK_FREQUENCY_RANGE_def
        FSK_MAX_FREQUENCY_def Let_def min_def)

lemma us_char_to_frequency_eq:
  "us_char_to_frequency c = 15000 + (real (min c 255) / 255) * 5000"
  by (simp add: us_char_to_frequency_def US_MIN_FREQUENCY_def US_FREQUENCY_RANGE_def
        US_MAX_FREQUENCY_def Let_def min_def)

text \<open>
  C7. For every text, each character yields exactly one tone event with the single
  frequency \<open>400 + (min(c, 255) / 255) * 1600\<close> Hz in the audible encoder and
  \<open>15000 + (min(c, 255) / 255) * 5000\<close> Hz in the ultrasonic encoder: a code point above
  255 is clamped, not rejected. In the audible encoder code point 0 gives 400 Hz, code
  point 255 gives 2000 Hz and code point 65 gives \<open>41200 / 51\<close> Hz, within 0.05 of 807.8.
  (The frequencies are real numbers here; the source computes them in double precision,
  where those of the code points 0 and 255 are exact as well.)
\<close>

theorem single_tone_frequency:
  "snd (FSKEncoder_encode self s) =
     \<lparr>tones = map (\<lambda>c. \<lparr>frequencies = [400 + (real (min c 255) / 255) * 1600],
                          duration_ms = tone_duration_ms self\<rparr>) s,
      original_text = s\<rparr> \<and>
   snd (UltrasonicEncoder_encode self s) =
     \<lparr>tones = map (\<lambda>c. \<lparr>frequencies = [15000 + (real (min c 255) / 255) * 5000],
                          duration_ms = tone_duration_ms self\<rparr>) s,
      original_text = s\<rparr> \<and>
   snd (FSKEncoder_encode self [0]) =
     \<lparr>tones = [\<lparr>frequencies = [400], duration_ms = tone_duration_ms self\<rparr>],
      original_text = [0]\<rparr> \<and>
   snd (FSKEncoder_encode self [255]) =
     \<lparr>tones = [\<lparr>frequencies = [2000], duration_ms = tone_duration_ms self\<rparr>],
      original_text = [255]\<rparr> \<and>
   snd (FSKEncoder_encode self [65]) =
     \<lparr>tones = [\<lparr>frequencies = [41200 / 51], duration_ms = tone_duration_ms self\<rparr>],
      original_text = [65]\<rparr> \<and>
   \<bar>41200 / 51 - 807.8\<bar> < (0.05 :: real)"
  by (simp add: FSKEncoder_encode_def UltrasonicEncoder_encode_def fsk_loop_eq us_loop_eq
        fsk_char_to_frequency_eq us_char_to_frequency_eq)

theorem single_tone_frequency_witness:
  "snd (FSKEncoder_encode \<lparr>tone_duration_ms = 100\<rparr> [8364]) =
     \<lparr>tones = [\<lparr>frequencies = [2000], duration_ms = 100\<rparr>], original_text = [8364]\<rparr>"
  using single_tone_frequency [of "\<lparr>tone_duration_ms = 100\<rparr>" "[8364]"] by simp

text \<open>
  C10. For each of the three encoders and every text, \<open>encode\<close> leaves the instance as it
  was, and every tone event of the frame it returns carries the instance's
  \<open>tone_duration_ms\<close>. Constructed without a duration, the dual-tone and the audible
  encoder have 100 ms and the ultrasonic encoder 5 ms; constructed with one, they have it.
\<close>

theorem encode_keeps_duration:
  "fst (DTMFEncoder_encode self s) = self \<and>
   (\<exists>fr. snd (DTMFEncoder_encode self s) = Inr fr \<and>
      (\<forall>t \<in> set (tones fr). duration_ms t = tone_duration_ms self)) \<and>
   fst (FSKEncoder_encode self s) = self \<and>
   (\<forall>t \<in> set (tones (snd (FSKEncoder_encode self s))). duration_ms t = tone_duration_ms self) \<and>
   fst (UltrasonicEncoder_encode self s) = self \<and>
   (\<forall>t \<in> set (tones (snd (UltrasonicEncoder_encode self s))).
      duration_ms t = tone_duration_ms self) \<and>
   DTMFEncoder_init None = Inr \<lparr>tone_duration_ms = 100\<rparr> \<and>
   FSKEncoder_init None = Inr \<lparr>tone_duration_ms = 100\<rparr> \<and>
   UltrasonicEncoder_init None = Inr \<lparr>tone_duration_ms = 5\<rparr> \<and>
   DTMFEncoder_init (Some d) = Inr \<lparr>tone_duration_ms = d\<rparr> \<and>
   FSKEncoder_init (Some d) = Inr \<lparr>tone_duration_ms = d\<rparr> \<and>
   UltrasonicEncoder_init (Some d) = Inr \<lparr>tone_duration_ms = d\<rparr>"
proof -
  have "duration_ms t = tone_duration_ms self"
    if "t \<in> set (concat (map (char_tones self) s))" for t
    using concat_char_tones_keypad [OF that] by (auto simp: keypad_tone_def)
  then show ?thesis
    by (auto simp: DTMFEncoder_encode_eq FSKEncoder_encode_def UltrasonicEncoder_encode_def
          fsk_loop_eq us_loop_eq DTMFEncoder_init_def FSKEncoder_init_def
          UltrasonicEncoder_init_def DEFAULT_TONE_DURATION_MS_def)
qed

theorem encode_keeps_duration_witness:
  "snd (DTMFEncoder_encode \<lparr>tone_duration_ms = 50\<rparr> [88]) =
     Inr \<lparr>tones = [\<lparr>frequencies = [770, 1336], duration_ms = 50\<rparr>,
                  \<lparr>frequencies = [852, 1336], duration_ms = 50\<rparr>],
          original_text = [88]\<rparr> \<and>
   map duration_ms (tones (snd (FSKEncoder_encode \<lparr>tone_duration_ms = 75\<rparr> [88]))) = [75] \<and>
   map duration_ms (tones (snd (UltrasonicEncoder_encode \<lparr>tone_duration_ms = 1\<rparr> [88]))) = [1]"
  using encode_keeps_duration [of "\<lparr>tone_duration_ms = 50\<rparr>" "[88]"]
    encode_keeps_duration [of "\<lparr>tone_duration_ms = 75\<rparr>" "[88]"]
    encode_keeps_duration [of "\<lparr>tone_duration_ms = 1\<rparr>" "[88]"]
  by (simp add: DTMFEncoder_encode_eq char_tones_byte keypad_tone_def keypad_frequencies_nth
        FSKEncoder_encode_def UltrasonicEncoder_encode_def)

text \<open>
  C9, as stated: a buffer threshold below 1 and a tone duration of 0 or less fail at
  construction. On the code the constructors check nothing: a threshold of 0 and durations
  of 0 and \<open>-5\<close> give instances holding those values.
\<close>

theorem constructors_accept_invalid_configuration:
  "TokenBuffer_init 0 returning_handler =
     Inr \<lparr>buffer_size = 0, on_flush = returning_handler, buffer = [], token_count = 0\<rparr> \<and>
   DTMFEncoder_init (Some 0) = Inr \<lparr>tone_duration_ms = 0\<rparr> \<and>
   FSKEncoder_init (Some (- 5)) = Inr \<lparr>tone_duration_ms = - 5\<rparr>"
  by (simp add: TokenBuffer_init_def DTMFEncoder_init_def FSKEncoder_init_def)

lemma generate_tone_negative:
  "int_truediv (r * d) 1000 < 0 \<Longrightarrow> generate_tone fs d r = Inl ValueError"
  by (simp add: generate_tone_def linspace_def Let_def)

text \<open>
  C9, amended: construction never fails. The buffer takes any threshold and each encoder
  any tone duration, and stores it as given. A tone duration so negative that the sample
  count is below zero first fails later, when a tone is synthesized, with \<open>ValueError\<close>.
\<close>

theorem constructors_never_fail:
  "TokenBuffer_init n h =
     Inr \<lparr>buffer_size = n, on_flush = h, buffer = [], token_count = 0\<rparr> \<and>
   DTMFEncoder_init (Some d) = Inr \<lparr>tone_duration_ms = d\<rparr> \<and>
   FSKEncoder_init (Some d) = Inr \<lparr>tone_duration_ms = d\<rparr> \<and>
   UltrasonicEncoder_init (Some d) = Inr \<lparr>tone_duration_ms = d\<rparr> \<and>
   (0 < r \<and> r * d \<le> - 1000 \<longrightarrow> generate_tone fs d r = Inl ValueError)"
proof -
  have "int_truediv (r * d) 1000 < 0" if "r * d \<le> - 1000"
    using that by (simp add: int_truediv_def)
  then show ?thesis
    by (simp add: TokenBuffer_init_def DTMFEncoder_init_def FSKEncoder_init_def
          UltrasonicEncoder_init_def generate_tone_negative)
qed

theorem constructors_never_fail_witness:
  "(0::int) < 44100 \<and> (44100::int) * (- 100) \<le> - 1000 \<and>
   UltrasonicEncoder_init (Some (- 100)) = Inr \<lparr>tone_duration_ms = - 100\<rparr> \<and>
   generate_tone [15000] (- 100) 44100 = Inl ValueError"
  using constructors_never_fail [of 1 returning_handler "- 100" 44100 "[15000]"] by simp

section \<open>The token buffer\<close>

lemma flush_result:
  "TokenBuffer_flush self w = (r, self', w') \<Longrightarrow>
     (buffer self = [] \<and> r = None \<and> self' = self \<and> w' = w) \<or>
     (buffer self \<noteq> [] \<and> (r, w') = on_flush self (buffer self) w \<and>
      self' = (if r = None then self\<lparr>buffer := [], token_count := 0\<rparr> else self))"
  by (auto simp: TokenBuffer_flush_def split: if_splits prod.splits option.splits)

lemma flush_ok_buffer:
  "TokenBuffer_flush self w = (None, self', w') \<Longrightarrow>
     buffer self' = [] \<and> (buffer self \<noteq> [] \<longrightarrow> token_count self' = 0)"
  by (drule flush_result) auto

lemma add_flush_ok_buffer:
  "TokenBuffer_add self s w = (None, self', w') \<Longrightarrow> buffer_size self \<le> token_count self + 1 \<Longrightarrow>
     buffer self' = [] \<and> (buffer self @ s \<noteq> [] \<longrightarrow> token_count self' = 0)"
  by (auto simp: TokenBuffer_add_def Let_def dest!: flush_ok_buffer)

lemma never_raises_None:
  "\<forall>s w. fst (h s w) = None \<Longrightarrow> h s w = (r, w') \<Longrightarrow> r = None"
  by (metis fst_conv)

lemma flush_preserves_inv:
  assumes "\<forall>s w. fst (on_flush self s w) = None" and "buffer_inv self"
    and "TokenBuffer_flush self w = (r, self', w')"
  shows "buffer_inv self' \<and> on_flush self' = on_flush self \<and>
     buffer_size self' = buffer_size self \<and> r = None"
proof (cases "buffer self = []")
  case True
  with assms(2,3) show ?thesis
    by (simp add: TokenBuffer_flush_def)
next
  case False
  obtain r1 w1 where h: "on_flush self (buffer self) w = (r1, w1)"
    by (cases "on_flush self (buffer self) w") auto
  with assms(1) have "r1 = None"
    by (rule never_raises_None)
  with h False assms(2,3) show ?thesis
    by (auto simp: TokenBuffer_flush_def buffer_inv_def)
qed

lemma add_preserves_inv:
  assumes "\<forall>s w. fst (on_flush self s w) = None" and "buffer_inv self" and "s \<noteq> []"
    and "TokenBuffer_add self s w = (r, self', w')"
  shows "buffer_inv self' \<and> on_flush self' = on_flush self \<and>
     buffer_size self' = buffer_size self \<and> r = None"
proof (cases "buffer_size self \<le> token_count self + 1")
  case True
  obtain r1 w1 where h: "on_flush self (buffer self @ s) w = (r1, w1)"
    by (cases "on_flush self (buffer self @ s) w") auto
  with assms(1) have "r1 = None"
    by (rule never_raises_None)
  with h True assms(2,3,4) show ?thesis
    by (auto simp: TokenBuffer_add_def TokenBuffer_flush_def buffer_inv_def Let_def)
next
  case False
  with assms(2,3,4) show ?thesis
    by (auto simp: TokenBuffer_add_def buffer_inv_def Let_def)
qed

lemma call_preserves_inv:
  assumes "\<forall>s w. fst (on_flush self s w) = None" and "buffer_inv self" and "c \<noteq> Add []"
    and "TokenBuffer_call c self w = (r, self', w')"
  shows "buffer_inv self' \<and> on_flush self' = on_flush self \<and>
     buffer_size self' = buffer_size self \<and> r = None"
proof (cases c)
  case (Add s)
  with assms show ?thesis
    using add_preserves_inv [of self s w r self' w'] by simp
next
  case Flush
  with assms show ?thesis
    using flush_preserves_inv [of self w r self' w'] by simp
qed

lemma run_calls_preserves_inv:
  "\<forall>s w. fst (on_flush self s w) = None \<Longrightarrow> buffer_inv self \<Longrightarrow> \<forall>c \<in> set cs. c \<noteq> Add [] \<Longrightarrow>
     run_calls cs self w = (self', w') \<Longrightarrow>
     buffer_inv self' \<and> buffer_size self' = buffer_size self \<and> \<not> raised cs self w"
proof (induction cs arbitrary: self w)
  case Nil
  then show ?case by simp
next
  case (Cons c cs)
  obtain r self1 w1 where step: "TokenBuffer_call c self w = (r, self1, w1)"
    by (cases "TokenBuffer_call c self w") auto
  from Cons.prems(3) have c: "c \<noteq> Add []" and cs: "\<forall>c \<in> set cs. c \<noteq> Add []"
    by simp_all
  from call_preserves_inv [OF Cons.prems(1,2) c step]
  have inv1: "buffer_inv self1" and h1: "on_flush self1 = on_flush self"
    and sz: "buffer_size self1 = buffer_size self" and r: "r = None"
    by simp_all
  from Cons.prems(4) step have run: "run_calls cs self1 w1 = (self', w')"
    by simp
  from Cons.prems(1) h1 have "\<forall>s w. fst (on_flush self1 s w) = None"
    by simp
  from Cons.IH [OF this inv1 cs run] sz r step show ?case
    by simp
qed

text \<open>
  C3, as stated: after any flush that completes without the handler raising, the text is
  empty and the counter zero, so the counter never exceeds the threshold. On the code a
  flush on empty text returns before the counter is reset. With threshold 1 and two empty
  fragments added, no call raises, each \<open>add\<close> triggers a flush, the handler is never
  called, and the counter ends at 2; a flush on empty text with the counter at 1 leaves
  it at 1.
\<close>

theorem counter_exceeds_threshold:
  "run_calls [Add [], Add []]
     \<lparr>buffer_size = 1, on_flush = returning_handler, buffer = [], token_count = 0\<rparr> () =
     (\<lparr>buffer_size = 1, on_flush = returning_handler, buffer = [], token_count = 2\<rparr>, ()) \<and>
   \<not> raised [Add [], Add []]
     \<lparr>buffer_size = 1, on_flush = returning_handler, buffer = [], token_count = 0\<rparr> () \<and>
   TokenBuffer_flush
     \<lparr>buffer_size = 1, on_flush = returning_handler, buffer = [], token_count = 1\<rparr> () =
     (None, \<lparr>buffer_size = 1, on_flush = returning_handler, buffer = [], token_count = 1\<rparr>, ())"
  by (simp add: TokenBuffer_add_def TokenBuffer_flush_def)

text \<open>
  C3, amended. After any flush that completes without the handler raising, whether called
  by the caller or triggered inside \<open>add\<close> when the counter reaches the threshold, the
  accumulated text is empty; the counter is zero when the text was not empty as the flush
  began. In every sequence of \<open>add\<close> and \<open>flush\<close> calls on a new buffer with a threshold
  of at least 1, a handler that never raises and no empty fragment, no call raises and
  after the sequence the counter is at least 0 and below the threshold, and it is zero
  exactly when the text is empty.
\<close>

theorem flush_empties_buffer:
  "(TokenBuffer_flush self w = (None, self', w') \<longrightarrow>
      buffer self' = [] \<and> (buffer self \<noteq> [] \<longrightarrow> token_count self' = 0)) \<and>
   (TokenBuffer_add self s w = (None, self'', w'') \<and> buffer_size self \<le> token_count self + 1 \<longrightarrow>
      buffer self'' = [] \<and> (buffer self @ s \<noteq> [] \<longrightarrow> token_count self'' = 0)) \<and>
   (1 \<le> n \<and> (\<forall>s w. fst (h s w) = None) \<and> (\<forall>c \<in> set cs. c \<noteq> Add []) \<and>
    TokenBuffer_init n h = Inr b0 \<and> run_calls cs b0 w0 = (b, w1) \<longrightarrow>
      \<not> raised cs b0 w0 \<and> buffer_size b = n \<and> 0 \<le> token_count b \<and> token_count b < n \<and>
      (buffer b = [] \<longleftrightarrow> token_count b = 0))"
proof -
  have "\<not> raised cs b0 w0 \<and> buffer_size b = n \<and> 0 \<le> token_count b \<and> token_count b < n \<and>
      (buffer b = [] \<longleftrightarrow> token_count b = 0)"
    if n: "1 \<le> n" and h: "\<forall>s w. fst (h s w) = None" and cs: "\<forall>c \<in> set cs. c \<noteq> Add []"
      and b0: "TokenBuffer_init n h = Inr b0" and run: "run_calls cs b0 w0 = (b, w1)"
  proof -
    from b0 have b0_eq: "b0 = \<lparr>buffer_size = n, on_flush = h, buffer = [], token_count = 0\<rparr>"
      by (simp add: TokenBuffer_init_def)
    with n have inv: "buffer_inv b0"
      by (simp add: buffer_inv_def)
    from h b0_eq have "\<forall>s w. fst (on_flush b0 s w) = None"
      by simp
    then have "buffer_inv b \<and> buffer_size b = buffer_size b0 \<and> \<not> raised cs b0 w0"
      using inv cs run by (rule run_calls_preserves_inv)
    with b0_eq show ?thesis
      by (simp add: buffer_inv_def)
  qed
  then show ?thesis
    using flush_ok_buffer [of self w self' w'] add_flush_ok_buffer [of self s w self'' w'']
    by blast
qed

theorem flush_empties_buffer_witness:
  "TokenBuffer_flush
     \<lparr>buffer_size = 3, on_flush = returning_handler, buffer = [72, 105], token_count = 2\<rparr> () =
     (None, \<lparr>buffer_size = 3, on_flush = returning_handler, buffer = [], token_count = 0\<rparr>, ()) \<and>
   TokenBuffer_add
     \<lparr>buffer_size = 3, on_flush = returning_handler, buffer = [72, 105], token_count = 2\<rparr>
     [33] () =
     (None, \<lparr>buffer_size = 3, on_flush = returning_handler, buffer = [], token_count = 0\<rparr>, ()) \<and>
   (3::int) \<le> 2 + 1 \<and> (1::int) \<le> 3 \<and> fst (returning_handler [72] ()) = None \<and>
   Add [72] \<noteq> Add [] \<and>
   TokenBuffer_init 3 returning_handler =
     Inr \<lparr>buffer_size = 3, on_flush = returning_handler, buffer = [], token_count = 0\<rparr> \<and>
   run_calls [Add [72], Add [105], Add [33], Flush, Add [72]]
     \<lparr>buffer_size = 3, on_flush = returning_handler, buffer = [], token_count = 0\<rparr> () =
     (\<lparr>buffer_size = 3, on_flush = returning_handler, buffer = [72], token_count = 1\<rparr>, ()) \<and>
   (1::int) < 3"
  using flush_empties_buffer [of
      "\<lparr>buffer_size = 3, on_flush = returning_handler, buffer = [72, 105], token_count = 2\<rparr>"
      "()" "\<lparr>buffer_size = 3, on_flush = returning_handler, buffer = [], token_count = 0\<rparr>"
      "()" "[33]"
      "\<lparr>buffer_size = 3, on_flush = returning_handler, buffer = [], token_count = 0\<rparr>"
      "()" 3 returning_handler "[Add [72], Add [105], Add [33], Flush, Add [72]]"
      "\<lparr>buffer_size = 3, on_flush = returning_handler, buffer = [], token_count = 0\<rparr>"
      "()" "\<lparr>buffer_size = 3, on_flush = returning_handler, buffer = [72], token_count = 1\<rparr>"
      "()"]
  by (simp add: TokenBuffer_add_def TokenBuffer_flush_def TokenBuffer_init_def
        returning_handler_def)



section \<open>The tone synthesizer\<close>

lemma linspace_Inr: "0 \<le> n \<Longrightarrow> \<exists>t. linspace a b n = Inr t"
  by (simp add: linspace_def)

lemma linspace_Inl: "n < 0 \<Longrightarrow> linspace a b n = Inl ValueError"
  by (simp add: linspace_def)

lemma length_linspace: "linspace a b n = Inr t \<Longrightarrow> length t = nat n"
  by (auto simp: linspace_def split: if_splits)

lemma nth_linspace:
  "linspace a b n = Inr t \<Longrightarrow> i < length t \<Longrightarrow>
     t ! i = (if length t = 1 then a else a + real i * ((b - a) / real (length t - 1)))"
  by (auto simp: linspace_def split: if_splits)

lemma length_tone_loop:
  "length signal = length t \<Longrightarrow> length (tone_loop signal t fs) = length t"
  by (induction fs arbitrary: signal) simp_all

lemma nth_tone_loop:
  "length signal = length t \<Longrightarrow> i < length t \<Longrightarrow>
     tone_loop signal t fs ! i = signal ! i + (\<Sum>f\<leftarrow>fs. sin (2 * pi * f * (t ! i)))"
  by (induction fs arbitrary: signal) (simp_all add: algebra_simps)

lemma length_tone_signal: "length (tone_signal fs t) = length t"
  by (simp add: tone_signal_def Let_def length_tone_loop)

lemma nth_tone_signal:
  "i < length t \<Longrightarrow>
     tone_signal fs t ! i =
       (if fs = [] then 0 else (\<Sum>f\<leftarrow>fs. sin (2 * pi * f * (t ! i))) / real (length fs))"
  by (simp add: tone_signal_def Let_def length_tone_loop nth_tone_loop)

lemma length_mul_prefix:
  "length fade = k \<Longrightarrow> k \<le> length signal \<Longrightarrow> length (mul_prefix k fade signal) = length signal"
  by (simp add: mul_prefix_def)

lemma nth_mul_prefix:
  "length fade = k \<Longrightarrow> k \<le> length signal \<Longrightarrow> i < length signal \<Longrightarrow>
     mul_prefix k fade signal ! i = (if i < k then signal ! i * fade ! i else signal ! i)"
  by (simp add: mul_prefix_def nth_append)

lemma length_mul_suffix:
  "length fade = k \<Longrightarrow> k \<le> length signal \<Longrightarrow> length (mul_suffix k fade signal) = length signal"
  by (simp add: mul_suffix_def)

lemma nth_mul_suffix:
  "length fade = k \<Longrightarrow> k \<le> length signal \<Longrightarrow> i < length signal \<Longrightarrow>
     mul_suffix k fade signal ! i =
       (if i < length signal - k then signal ! i
        else signal ! i * fade ! (i - (length signal - k)))"
  by (simp add: mul_suffix_def nth_append)

lemma apply_envelope_nth:
  "\<exists>xs. apply_envelope r signal = Inr xs \<and> length xs = length signal \<and>
     (\<forall>i<length signal. xs ! i = signal ! i * envelope r (length signal) i)"
proof (cases "0 < int_truediv r 100 \<and> 2 * int_truediv r 100 < int (length signal)")
  case False
  then show ?thesis
    by (auto simp: apply_envelope_def envelope_def Let_def)
next
  case True
  define k where "k = nat (int_truediv r 100)"
  from True have k: "0 < k" "2 * k < length signal" "int k = int_truediv r 100"
    unfolding k_def by linarith+
  obtain fade_in where fi: "linspace 0 1 (int k) = Inr fade_in"
    using linspace_Inr [of "int k" 0 1] by auto
  obtain fade_out where fo: "linspace 1 0 (int k) = Inr fade_out"
    using linspace_Inr [of "int k" 1 0] by auto
  have len: "length fade_in = k" "length fade_out = k"
    using length_linspace [OF fi] length_linspace [OF fo] by simp_all
  let ?ys = "mul_prefix k fade_in signal"
  let ?xs = "mul_suffix k fade_out ?ys"
  have ys_len: "length ?ys = length signal"
    using len k by (simp add: length_mul_prefix)
  have eq: "apply_envelope r signal = Inr ?xs"
  proof -
    from fi fo have "linspace 0 1 (int_truediv r 100) = Inr fade_in"
      and "linspace 1 0 (int_truediv r 100) = Inr fade_out"
      by (simp_all add: k(3))
    with True show ?thesis
      by (simp add: apply_envelope_def Let_def k_def)
  qed
  have xs_len: "length ?xs = length signal"
    using len k ys_len by (simp add: length_mul_suffix)
  have "?xs ! i = signal ! i * envelope r (length signal) i" if i: "i < length signal" for i
  proof -
    have env: "envelope r (length signal) i = envelope_gain k (length signal) i"
      using True by (simp add: envelope_def Let_def k_def)
    have ys: "?ys ! i = (if i < k then signal ! i * fade_in ! i else signal ! i)"
      using len k i by (simp add: nth_mul_prefix)
    have xs: "?xs ! i = (if i < length signal - k then ?ys ! i
        else ?ys ! i * fade_out ! (i - (length signal - k)))"
      using len k i ys_len nth_mul_suffix [of fade_out k ?ys i] by simp
    consider "i < k" | "k \<le> i" "i < length signal - k" | "length signal - k \<le> i"
      by linarith
    then show ?thesis
    proof cases
      case 1
      then have "fade_in ! i = (if k = 1 then 0 else real i / real (k - 1))"
        using nth_linspace [OF fi, of i] len by simp
      with 1 k xs ys env show ?thesis
        by (simp add: envelope_gain_def)
    next
      case 2
      with xs ys env show ?thesis
        by (simp add: envelope_gain_def)
    next
      case 3
      let ?j = "i - (length signal - k)"
      from 3 i k have j: "?j < k" by linarith
      then have "fade_out ! ?j = (if k = 1 then 1 else 1 - real ?j / real (k - 1))"
        using nth_linspace [OF fo, of ?j] len by (simp add: divide_simps)
      moreover from 3 k have "\<not> i < k" "\<not> i < length signal - k" by linarith+
      ultimately show ?thesis
        using xs ys env 3 by (simp add: envelope_gain_def)
    qed
  qed
  with eq xs_len show ?thesis by blast
qed

lemma envelope_bounds: "i < n \<Longrightarrow> 0 \<le> envelope r n i \<and> envelope r n i \<le> 1"
  by (auto simp: envelope_def envelope_gain_def Let_def divide_simps)

lemma envelope_first: "0 < int_truediv r 100 \<Longrightarrow> 2 * int_truediv r 100 < int n \<Longrightarrow>
    envelope r n 0 = 0"
  by (simp add: envelope_def envelope_gain_def Let_def)

lemma envelope_last: "2 \<le> int_truediv r 100 \<Longrightarrow> 2 * int_truediv r 100 < int n \<Longrightarrow>
    envelope r n (n - 1) = 0"
  by (auto simp: envelope_def envelope_gain_def Let_def divide_simps)

lemma envelope_none: "\<not> (0 < int_truediv r 100 \<and> 2 * int_truediv r 100 < int n) \<Longrightarrow>
    envelope r n i = 1"
  by (auto simp: envelope_def Let_def)

lemma generate_tone_eq:
  assumes "0 \<le> int_truediv (r * d) 1000"
  shows "\<exists>t. linspace 0 (real_of_int d / 1000) (int_truediv (r * d) 1000) = Inr t \<and>
     length t = nat (int_truediv (r * d) 1000) \<and>
     generate_tone fs d r = apply_envelope r (tone_signal fs t)"
proof -
  obtain t where t: "linspace 0 (real_of_int d / 1000) (int_truediv (r * d) 1000) = Inr t"
    using linspace_Inr [OF assms] by blast
  then show ?thesis
    using length_linspace [OF t] by (simp add: generate_tone_def Let_def)
qed

lemma generate_tone_nth:
  assumes "linspace 0 (real_of_int d / 1000) (int_truediv (r * d) 1000) = Inr t"
  shows "\<exists>xs. generate_tone fs d r = Inr xs \<and> length xs = length t \<and>
     (\<forall>i<length t. xs ! i = tone_signal fs t ! i * envelope r (length t) i)"
  using assms apply_envelope_nth [of r "tone_signal fs t"]
  by (simp add: generate_tone_def Let_def length_tone_signal)

lemma generate_tone_Inr:
  "generate_tone fs d r = Inr xs \<Longrightarrow>
     \<exists>t. linspace 0 (real_of_int d / 1000) (int_truediv (r * d) 1000) = Inr t"
  by (auto simp: generate_tone_def Let_def split: sum.splits)

lemma length_generate_tone:
  "0 \<le> int_truediv (r * d) 1000 \<Longrightarrow>
     map_sum id length (generate_tone fs d r) = Inr (nat (int_truediv (r * d) 1000))"
proof -
  assume "0 \<le> int_truediv (r * d) 1000"
  then obtain t where t: "linspace 0 (real_of_int d / 1000) (int_truediv (r * d) 1000) = Inr t"
    using linspace_Inr by blast
  from generate_tone_nth [OF t, of fs] length_linspace [OF t] show ?thesis
    by auto
qed





lemma mult_div_self: "(k::real) \<noteq> 0 \<Longrightarrow> k * (x / k) = x"
  by simp

lemma last_generate_tone:
  assumes "1 < int_truediv (r * d) 1000"
  shows "map_sum id last (generate_tone [f] d r) =
     Inr (sin (2 * pi * f * (real_of_int d / 1000)) *
          envelope r (nat (int_truediv (r * d) 1000)) (nat (int_truediv (r * d) 1000) - 1))"
proof -
  let ?n = "nat (int_truediv (r * d) 1000)"
  obtain t where t: "linspace 0 (real_of_int d / 1000) (int_truediv (r * d) 1000) = Inr t"
    using linspace_Inr [of "int_truediv (r * d) 1000"] assms by auto
  have len: "length t = ?n" and pos: "1 < ?n"
    using length_linspace [OF t] assms by simp_all
  obtain xs where xs: "generate_tone [f] d r = Inr xs" "length xs = ?n"
    and nth: "\<forall>i<?n. xs ! i = tone_signal [f] t ! i * envelope r ?n i"
    using generate_tone_nth [OF t, of "[f]"] len by auto
  have "t ! (?n - 1) = real (?n - 1) * ((real_of_int d / 1000) / real (?n - 1))"
    using nth_linspace [OF t, of "?n - 1"] len pos by simp
  also have "\<dots> = real_of_int d / 1000"
    using pos by (intro mult_div_self) simp
  finally have tl: "t ! (?n - 1) = real_of_int d / 1000" .
  have "?n - 1 < ?n"
    using pos by simp
  then have "xs ! (?n - 1) = tone_signal [f] t ! (?n - 1) * envelope r ?n (?n - 1)"
    and "tone_signal [f] t ! (?n - 1) = sin (2 * pi * f * (t ! (?n - 1)))"
    using nth len by (simp_all add: nth_tone_signal)
  then have "xs ! (?n - 1) = sin (2 * pi * f * (real_of_int d / 1000)) * envelope r ?n (?n - 1)"
    by (simp only: tl)
  moreover have "last xs = xs ! (?n - 1)"
  proof -
    from xs(2) pos have "xs \<noteq> []" by auto
    then have "last xs = xs ! (length xs - 1)" by (rule last_conv_nth)
    with xs(2) show ?thesis by simp
  qed
  ultimately show ?thesis
    using xs(1) by simp
qed

text \<open>
  C6, as stated: a single tone has \<open>round(r * d / 1000)\<close> samples, and its first and last
  samples are below 0.01 in magnitude whenever the tone contains the fade window. On the
  code the count is truncated: 12 ms at 22050 Hz is 264.6 sample periods and gives 264
  samples, not 265. And at a sample rate of 100 Hz the fade is one sample long, the
  fade-out of one sample is the factor 1, and the last sample of one second of 0.25 Hz is
  1, though the tone is a hundred times the fade window.
\<close>

theorem single_tone_length_truncated:
  "map_sum id length (generate_tone [1000] 12 22050) = Inr 264 \<and>
   round (22050 * 12 / 1000 :: real) = 265 \<and>
   map_sum id last (generate_tone [1 / 4] 1000 100) = Inr 1"
proof -
  have "map_sum id length (generate_tone [1000] 12 22050) = Inr 264"
    using length_generate_tone [of 22050 12 "[1000]"] by (simp add: int_truediv_def)
  moreover have "round (22050 * 12 / 1000 :: real) = 265"
    by (rule round_unique) simp_all
  moreover have "map_sum id last (generate_tone [1 / 4] 1000 100) = Inr 1"
    using last_generate_tone [of 100 1000 "1 / 4"]
    by (simp add: int_truediv_def envelope_def envelope_gain_def)
  ultimately show ?thesis by simp
qed

text \<open>
  C6, amended. Whenever the synthesizer returns a buffer for a single frequency, the
  buffer has \<open>int(r * d / 1000)\<close> samples (truncated), every sample is in \<open>[-1, 1]\<close>, and
  the sample at index \<open>i\<close> is \<open>sin(2 * pi * f * t\<^sub>i)\<close> times the gain of the envelope: a
  linear fade-in from 0 to 1 over the first \<open>int(r * 0.01)\<close> samples and a linear fade-out
  from 1 to 0 over the last as many, if and only if that number is positive and the
  sample count exceeds twice it, and the gain 1 everywhere otherwise. The first sample is
  0 in either case; the last sample is 0 when the envelope applies with a fade of at least
  two samples. Without the envelope the last sample is not constrained: 1 ms of 250 Hz at
  44100 Hz ends with the sample 1.
\<close>

theorem single_tone_envelope:
  "generate_tone [f] d r = Inr xs \<longrightarrow>
     int (length xs) = int_truediv (r * d) 1000 \<and>
     (\<forall>x \<in> set xs. - 1 \<le> x \<and> x \<le> 1) \<and>
     (\<exists>t. linspace 0 (real_of_int d / 1000) (int_truediv (r * d) 1000) = Inr t \<and>
        (\<forall>i<length xs.
           xs ! i = sin (2 * pi * f * (t ! i)) *
             (if 0 < int_truediv r 100 \<and> 2 * int_truediv r 100 < int (length xs)
              then envelope_gain (nat (int_truediv r 100)) (length xs) i else 1))) \<and>
     (xs \<noteq> [] \<longrightarrow> hd xs = 0) \<and>
     (2 \<le> int_truediv r 100 \<and> 2 * int_truediv r 100 < int (length xs) \<longrightarrow> last xs = 0) \<and>
     map_sum id last (generate_tone [250] 1 44100) = Inr 1"
proof
  assume xs: "generate_tone [f] d r = Inr xs"
  from generate_tone_Inr [OF xs] obtain t
    where t: "linspace 0 (real_of_int d / 1000) (int_truediv (r * d) 1000) = Inr t"
    by blast
  from generate_tone_nth [OF t, of "[f]"] xs
  have len: "length xs = length t"
    and nth: "\<forall>i<length t. xs ! i = tone_signal [f] t ! i * envelope r (length t) i"
    by simp_all
  have sig: "tone_signal [f] t ! i = sin (2 * pi * f * (t ! i))" if "i < length t" for i
    using that by (simp add: nth_tone_signal)
  have n: "int (length xs) = int_truediv (r * d) 1000"
    using length_linspace [OF t] t len by (auto simp: linspace_def split: if_splits)
  have val: "xs ! i = sin (2 * pi * f * (t ! i)) * envelope r (length xs) i"
    if "i < length xs" for i
    using that nth sig len by simp
  have bound: "- 1 \<le> x \<and> x \<le> 1" if "x \<in> set xs" for x
  proof -
    from that obtain i where i: "i < length xs" and x: "x = xs ! i"
      by (auto simp: in_set_conv_nth)
    have "\<bar>sin (2 * pi * f * (t ! i)) * envelope r (length xs) i\<bar> \<le> 1 * 1"
      unfolding abs_mult using envelope_bounds [OF i, of r]
      by (intro mult_mono) simp_all
    with x val [OF i] show ?thesis
      by (simp add: abs_le_iff)
  qed
  have first: "hd xs = 0" if "xs \<noteq> []"
  proof -
    from that have 0: "0 < length xs" by simp
    with len have "t ! 0 = 0"
      using nth_linspace [OF t, of 0] by simp
    with val [OF 0] that show ?thesis
      by (simp add: hd_conv_nth)
  qed
  have final: "last xs = 0"
    if "2 \<le> int_truediv r 100 \<and> 2 * int_truediv r 100 < int (length xs)"
  proof -
    from that have ne: "xs \<noteq> []" by auto
    then have "length xs - 1 < length xs" by simp
    from val [OF this] envelope_last [of r "length xs"] that ne show ?thesis
      by (simp add: last_conv_nth)
  qed
  have "\<forall>i<length xs.
           xs ! i = sin (2 * pi * f * (t ! i)) *
             (if 0 < int_truediv r 100 \<and> 2 * int_truediv r 100 < int (length xs)
              then envelope_gain (nat (int_truediv r 100)) (length xs) i else 1)"
    using val by (simp add: envelope_def Let_def)
  moreover have "map_sum id last (generate_tone [250] 1 44100) = Inr 1"
    using last_generate_tone [of 44100 1 250]
    by (simp add: int_truediv_def envelope_def)
  ultimately
  show "int (length xs) = int_truediv (r * d) 1000 \<and>
     (\<forall>x \<in> set xs. - 1 \<le> x \<and> x \<le> 1) \<and>
     (\<exists>t. linspace 0 (real_of_int d / 1000) (int_truediv (r * d) 1000) = Inr t \<and>
        (\<forall>i<length xs.
           xs ! i = sin (2 * pi * f * (t ! i)) *
             (if 0 < int_truediv r 100 \<and> 2 * int_truediv r 100 < int (length xs)
              then envelope_gain (nat (int_truediv r 100)) (length xs) i else 1))) \<and>
     (xs \<noteq> [] \<longrightarrow> hd xs = 0) \<and>
     (2 \<le> int_truediv r 100 \<and> 2 * int_truediv r 100 < int (length xs) \<longrightarrow> last xs = 0) \<and>
     map_sum id last (generate_tone [250] 1 44100) = Inr 1"
    using t n bound first final by blast
qed

theorem single_tone_envelope_witness:
  "\<exists>xs. generate_tone [440] 100 44100 = Inr xs \<and> length xs = 4410 \<and>
     (2::int) \<le> int_truediv 44100 100 \<and> 2 * int_truediv 44100 100 < int (length xs) \<and>
     hd xs = 0 \<and> last xs = 0 \<and> xs ! 2205 \<in> {- 1..1}"
proof -
  obtain t
    where t: "linspace 0 (real_of_int 100 / 1000) (int_truediv (44100 * 100) 1000) = Inr t"
    using linspace_Inr [of "int_truediv (44100 * 100) 1000"] by (auto simp: int_truediv_def)
  obtain xs where xs: "generate_tone [440] 100 44100 = Inr xs"
    using generate_tone_nth [OF t] by blast
  from single_tone_envelope [of 440 100 44100 xs] xs
  have "length xs = 4410 \<and> hd xs = 0 \<and> last xs = 0 \<and> xs ! 2205 \<in> {- 1..1}"
    by (auto simp: int_truediv_def)
  with xs show ?thesis
    by (auto simp: int_truediv_def)
qed

end
